theory Spec2Isabelle
  imports Main "HOL-Library.Sublist"
begin

section \<open>The notebook's three functions\<close>

text \<open>
  The notebook \<^verbatim>\<open>notebooks/multiple_plotly_figs_to_html_file.ipynb\<close> defines
  \<^verbatim>\<open>combine_plotly_figs_to_html\<close>, \<^verbatim>\<open>convert_logo\<close> and \<^verbatim>\<open>add_html_header\<close>.
  They work on files and on plotly figure objects, so the model passes a world
  explicitly: the files, the store of figure objects, and the pages handed to the
  browser. A call returns its outcome (\<open>Inl\<close> the exception raised, \<open>Inr\<close> the value
  returned) and, where it changes anything, the world it leaves behind, also when it
  raises.
\<close>

subsection \<open>Exceptions, the world, the library\<close>

datatype error =
    FileNotFoundError
  | PermissionError
  | ValueError string

text \<open>
  The world. A file holds 8-bit characters; \<open>files\<close> maps the path of every existing file
  to its content. \<^verbatim>\<open>open\<close> raises \<^verbatim>\<open>FileNotFoundError\<close> for reading a file that does not
  exist and \<^verbatim>\<open>PermissionError\<close> on a path in \<open>unreadable\<close> (for reading) or \<open>unwritable\<close> (for
  writing). A file that is open can be read and written: the model has no I/O errors.

  Text is written for a POSIX platform (the repository's workflow runs on
  \<^verbatim>\<open>ubuntu-latest\<close>), where text mode stores the characters it is given, and a text is
  identified with its encoding. \<open>decode_ignore\<close> is the platform's decoder with
  \<^verbatim>\<open>errors="ignore"\<close>: what it keeps of a file's characters when it drops those that are
  no text in the platform's encoding.

  Figure objects live in a store, \<open>figs\<close>, and a Python list of figures is a list of
  addresses: one object can sit at several places of a list. \<open>browser\<close> lists the files
  handed to \<^verbatim>\<open>webbrowser.open\<close>.
\<close>

record 'fig world =
  files :: "string \<rightharpoonup> string"
  unreadable :: "string set"
  unwritable :: "string set"
  decode_ignore :: "string \<Rightarrow> string"
  figs :: "nat \<Rightarrow> 'fig"
  browser :: "string list"

text \<open>The argument \<^verbatim>\<open>include_plotlyjs\<close>: \<^verbatim>\<open>True\<close>, \<^verbatim>\<open>False\<close>, or a string such as \<^verbatim>\<open>'cdn'\<close>.\<close>

datatype include_plotlyjs = PyBool bool | PyStr string

text \<open>
  plotly is not part of the repository. The two methods the notebook calls are
  parameters: \<open>update_layout g h\<close> is the figure that \<^verbatim>\<open>g.update_layout(height=h)\<close> leaves in
  place of \<open>g\<close>, and \<open>to_html g full_html js\<close> is the text that
  \<^verbatim>\<open>g.to_html(full_html=..., include_plotlyjs=...)\<close> returns. Either may raise; a call
  that raises leaves the figure as it was, and \<^verbatim>\<open>to_html\<close> only reads the figure.
\<close>

record 'fig plotly =
  update_layout :: "'fig \<Rightarrow> int \<Rightarrow> error + 'fig"
  to_html :: "'fig \<Rightarrow> bool \<Rightarrow> include_plotlyjs \<Rightarrow> error + string"

subsection \<open>Files\<close>

text \<open>\<^verbatim>\<open>open(p, "r")\<close> and \<^verbatim>\<open>open(p, "rb")\<close> followed by \<^verbatim>\<open>read()\<close>: the characters of the file.\<close>

definition open_r :: "string \<Rightarrow> 'fig world \<Rightarrow> error + string" where
  "open_r p w =
     (case files w p of
        None \<Rightarrow> Inl FileNotFoundError
      | Some c \<Rightarrow> if p \<in> unreadable w then Inl PermissionError else Inr c)"

text \<open>\<^verbatim>\<open>open(p, "w")\<close>: the file is created or truncated.\<close>

definition open_w :: "string \<Rightarrow> 'fig world \<Rightarrow> error + 'fig world" where
  "open_w p w =
     (if p \<in> unwritable w then Inl PermissionError
      else Inr (w\<lparr>files := (files w)(p \<mapsto> [])\<rparr>))"

text \<open>\<^verbatim>\<open>f.write(s)\<close> on the file opened at \<open>p\<close>: \<open>s\<close> goes to the end of the file.\<close>

definition fwrite :: "string \<Rightarrow> string \<Rightarrow> 'fig world \<Rightarrow> 'fig world" where
  "fwrite p s w =
     w\<lparr>files := (files w)(p \<mapsto> (case files w p of None \<Rightarrow> s | Some c \<Rightarrow> c @ s))\<rparr>"

text \<open>
  Reading in text mode (\<^verbatim>\<open>newline=None\<close>, Python's default) translates the line endings
  \<^verbatim>\<open>\r\n\<close> and \<^verbatim>\<open>\r\<close> to \<^verbatim>\<open>\n\<close>.
\<close>

fun universal_newlines :: "string \<Rightarrow> string" where
  "universal_newlines [] = []"
| "universal_newlines [c] = (if c = CHR 0x0D then [CHR 0x0A] else [c])"
| "universal_newlines (c # d # cs) =
     (if c = CHR 0x0D \<and> d = CHR 0x0A then CHR 0x0A # universal_newlines cs
      else if c = CHR 0x0D then CHR 0x0A # universal_newlines (d # cs)
      else c # universal_newlines (d # cs))"

text \<open>\<^verbatim>\<open>open(p, "r", errors="ignore")\<close> followed by \<^verbatim>\<open>read()\<close>.\<close>

definition read_text :: "string \<Rightarrow> 'fig world \<Rightarrow> error + string" where
  "read_text p w =
     (case open_r p w of
        Inl e \<Rightarrow> Inl e
      | Inr c \<Rightarrow> Inr (universal_newlines (decode_ignore w c)))"

subsection \<open>\<^verbatim>\<open>convert_logo\<close>\<close>

text \<open>
  \<^verbatim>\<open>base64.b64encode\<close> (RFC 4648, the standard alphabet, padded with \<^verbatim>\<open>=\<close>): three
  characters of eight bits become four of six.
\<close>

definition b64_alphabet :: string where
  "b64_alphabet = ''ABCDEFGHIJKLMNOPQRSTUVWXYZabcdefghijklmnopqrstuvwxyz0123456789+/''"

definition b64_char :: "nat \<Rightarrow> char" where
  "b64_char n = b64_alphabet ! (n mod 64)"

fun b64encode :: "string \<Rightarrow> string" where
  "b64encode [] = []"
| "b64encode [a] =
     (let x = (of_char a :: nat)
      in [b64_char (x div 4), b64_char (x mod 4 * 16), CHR ''='', CHR ''=''])"
| "b64encode [a, b] =
     (let x = (of_char a :: nat); y = (of_char b :: nat)
      in [b64_char (x div 4), b64_char (x mod 4 * 16 + y div 16),
          b64_char (y mod 16 * 4), CHR ''=''])"
| "b64encode (a # b # c # rest) =
     (let x = (of_char a :: nat); y = (of_char b :: nat); z = (of_char c :: nat)
      in [b64_char (x div 4), b64_char (x mod 4 * 16 + y div 16),
          b64_char (y mod 16 * 4 + z div 64), b64_char (z mod 64)] @ b64encode rest)"

text \<open>
  \<^verbatim>\<open>
  def convert_logo(file_location: str):
      logo_path = file_location
      with open(logo_path, "rb") as image_file:
          base64_logo = base64.b64encode(image_file.read()).decode("utf-8")
      logo_data = f"data:image/png;base64,{base64_logo}"
      return logo_data
  \<close>
  The encoded characters are all ASCII (\<open>b64encode_ascii\<close> below), on which
  \<^verbatim>\<open>decode("utf-8")\<close> changes nothing and cannot raise.
\<close>

definition convert_logo :: "string \<Rightarrow> 'fig world \<Rightarrow> error + string" where
  "convert_logo file_location w =
     (case open_r file_location w of
        Inl e \<Rightarrow> Inl e
      | Inr image_bytes \<Rightarrow> Inr (''data:image/png;base64,'' @ b64encode image_bytes))"

subsection \<open>\<^verbatim>\<open>add_html_header\<close>\<close>

text \<open>
  The f-string \<^verbatim>\<open>html_content\<close>, cut at \<^verbatim>\<open>{logo}\<close> and \<^verbatim>\<open>{title}\<close>; \<^verbatim>\<open>{{\<close> and \<^verbatim>\<open>}}\<close> of the
  source are the braces of the text.
\<close>

definition html_head :: string where
  "html_head = concat
    [''\<newline>'',
     ''    <html>\<newline>'',
     ''        <head>\<newline>'',
     ''            <meta name=\"viewport\" content=\"width=device-width, initial-scale=1\">\<newline>'',
     ''            <style>\<newline>'',
     ''                * {\<newline>'',
     ''                box-sizing: border-box;\<newline>'',
     ''                }\<newline>'',
     ''\<newline>'',
     ''                .column {\<newline>'',
     ''                float: left;\<newline>'',
     ''                padding: 10px;\<newline>'',
     ''                }\<newline>'',
     ''\<newline>'',
     ''                .left, .right {\<newline>'',
     ''                width: 25%;\<newline>'',
     ''                }\<newline>'',
     ''\<newline>'',
     ''                .middle {\<newline>'',
     ''                width: 50%;\<newline>'',
     ''                }\<newline>'',
     ''\<newline>'',
     ''                .row:after {\<newline>'',
     ''                content: \"\";\<newline>'',
     ''                display: table;\<newline>'',
     ''                clear: both;\<newline>'',
     ''                }\<newline>'',
     ''\<newline>'',
     ''                body {\<newline>'',
     ''                    font-family: Calibri, sans-serif;\<newline>'',
     ''                }\<newline>'',
     ''\<newline>'',
     ''                .header {\<newline>'',
     ''                    background-color: #f8f9fa;\<newline>'',
     ''                    padding: 10px 20px;\<newline>'',
     ''                    display: flex;\<newline>'',
     ''                    align-items: center;\<newline>'',
     ''                    border-bottom: 1px solid #ddd;\<newline>'',
     ''                }\<newline>'',
     ''\<newline>'',
     ''                .header img {\<newline>'',
     ''                    height: 40px;\<newline>'',
     ''                    margin-right: 20px;\<newline>'',
     ''                }\<newline>'',
     ''\<newline>'',
     ''                .header h1 {\<newline>'',
     ''                    margin: 0;\<newline>'',
     ''                    font-size: 24px;\<newline>'',
     ''                }\<newline>'',
     ''\<newline>'',
     ''                .content {\<newline>'',
     ''                    padding: 20px;\<newline>'',
     ''                }\<newline>'',
     ''\<newline>'',
     ''                .result {\<newline>'',
     ''                    margin-bottom: 40px;\<newline>'',
     ''                }\<newline>'',
     ''\<newline>'',
     ''                .result h2 {\<newline>'',
     ''                    font-size: 20px;\<newline>'',
     ''                    margin-bottom: 10px;\<newline>'',
     ''                }\<newline>'',
     ''\<newline>'',
     ''                .result img {\<newline>'',
     ''                    max-width: 100%;\<newline>'',
     ''                    height: auto;\<newline>'',
     ''                    display: block;\<newline>'',
     ''                    margin-bottom: 10px;\<newline>'',
     ''                }\<newline>'',
     ''\<newline>'',
     ''                hr {\<newline>'',
     ''                    border: none;\<newline>'',
     ''                    border-top: 1px solid #ddd;\<newline>'',
     ''                    margin: 20px 0;\<newline>'',
     ''                }\<newline>'',
     ''            </style>\<newline>'',
     ''        </head>\<newline>'',
     ''        <body>\<newline>'',
     ''            <div class=\"header\">\<newline>'',
     ''                <img src=\"'']"

definition html_mid :: string where
  "html_mid = concat
    [''\" alt=\"Logo\">\<newline>'',
     ''                <h1>'']"

definition html_tail :: string where
  "html_tail = concat
    [''</h1>\<newline>'',
     ''            </div>\<newline>'',
     ''            <div class=\"content\">\<newline>'',
     ''    '']"

definition html_content :: "string \<Rightarrow> string \<Rightarrow> string" where
  "html_content logo title = html_head @ logo @ html_mid @ title @ html_tail"

text \<open>
  \<^verbatim>\<open>
  with open(html_file, "r", errors="ignore") as f:
      plotly_html = f.read()
  with open(html_file, "w") as f:
      f.write(html_content + plotly_html )#+ "</body></html>")
  \<close>
\<close>

definition add_html_header ::
  "string \<Rightarrow> string \<Rightarrow> string \<Rightarrow> 'fig world \<Rightarrow> (error + unit) \<times> 'fig world" where
  "add_html_header html_file logo title w =
     (case read_text html_file w of
        Inl e \<Rightarrow> (Inl e, w)
      | Inr plotly_html \<Rightarrow>
          (case open_w html_file w of
             Inl e \<Rightarrow> (Inl e, w)
           | Inr w1 \<Rightarrow> (Inr (), fwrite html_file (html_content logo title @ plotly_html) w1)))"

subsection \<open>\<^verbatim>\<open>combine_plotly_figs_to_html\<close>\<close>

text \<open>
  \<^verbatim>\<open>
  if heights and i < len(heights):
      fig.update_layout(height=heights[i])
  \<close>
  on the store: \<^verbatim>\<open>update_layout\<close> changes the object in place. \<^verbatim>\<open>heights\<close> is \<^verbatim>\<open>None\<close> or
  a list; \<^verbatim>\<open>None\<close> and the empty list are false.
\<close>

definition override_height ::
  "'fig plotly \<Rightarrow> int list option \<Rightarrow> nat \<Rightarrow> nat \<Rightarrow> (nat \<Rightarrow> 'fig) \<Rightarrow> error + (nat \<Rightarrow> 'fig)" where
  "override_height L heights i fig s =
     (case heights of
        None \<Rightarrow> Inr s
      | Some hs \<Rightarrow>
          if hs \<noteq> [] \<and> i < length hs
          then (case update_layout L (s fig) (hs ! i) of
                  Inl e \<Rightarrow> Inl e
                | Inr g \<Rightarrow> Inr (s(fig := g)))
          else Inr s)"

text \<open>
  \<^verbatim>\<open>
  if i == 0:
      f.write(fig.to_html(include_plotlyjs=include_plotlyjs))
  else:
      if separator:
          f.write(separator)
      f.write(fig.to_html(full_html=False, include_plotlyjs=False))
  \<close>
  \<^verbatim>\<open>full_html\<close> defaults to \<^verbatim>\<open>True\<close>. \<^verbatim>\<open>separator\<close> is \<^verbatim>\<open>None\<close> or a string; \<^verbatim>\<open>None\<close> and
  the empty string are false. The separator is written before \<^verbatim>\<open>to_html\<close> is called.
\<close>

definition write_separator :: "string \<Rightarrow> string option \<Rightarrow> 'fig world \<Rightarrow> 'fig world" where
  "write_separator html_fname separator w =
     (case separator of
        None \<Rightarrow> w
      | Some s \<Rightarrow> if s \<noteq> [] then fwrite html_fname s w else w)"

definition write_fig ::
  "'fig plotly \<Rightarrow> string \<Rightarrow> include_plotlyjs \<Rightarrow> string option \<Rightarrow> nat \<Rightarrow> nat \<Rightarrow> 'fig world
     \<Rightarrow> (error + unit) \<times> 'fig world" where
  "write_fig L html_fname js separator i fig w =
     (if i = 0 then
        (case to_html L (figs w fig) True js of
           Inl e \<Rightarrow> (Inl e, w)
         | Inr s \<Rightarrow> (Inr (), fwrite html_fname s w))
      else
        (let w1 = write_separator html_fname separator w
         in case to_html L (figs w1 fig) False (PyBool False) of
              Inl e \<Rightarrow> (Inl e, w1)
            | Inr s \<Rightarrow> (Inr (), fwrite html_fname s w1)))"

text \<open>One pass through the body of the loop, for the figure \<open>fig\<close> at index \<open>i\<close>.\<close>

definition combine_body ::
  "'fig plotly \<Rightarrow> string \<Rightarrow> include_plotlyjs \<Rightarrow> string option \<Rightarrow> int list option \<Rightarrow> nat \<Rightarrow> nat
     \<Rightarrow> 'fig world \<Rightarrow> (error + unit) \<times> 'fig world" where
  "combine_body L html_fname js separator heights i fig w =
     (case override_height L heights i fig (figs w) of
        Inl e \<Rightarrow> (Inl e, w)
      | Inr s \<Rightarrow> write_fig L html_fname js separator i fig (w\<lparr>figs := s\<rparr>))"

text \<open>The loop \<^verbatim>\<open>for i, fig in enumerate(plotly_figs)\<close>, from index \<open>i\<close> on.\<close>

fun combine_loop ::
  "'fig plotly \<Rightarrow> string \<Rightarrow> include_plotlyjs \<Rightarrow> string option \<Rightarrow> int list option \<Rightarrow> nat \<Rightarrow> nat list
     \<Rightarrow> 'fig world \<Rightarrow> (error + unit) \<times> 'fig world" where
  "combine_loop L html_fname js separator heights i [] w = (Inr (), w)"
| "combine_loop L html_fname js separator heights i (fig # rest) w =
     (case combine_body L html_fname js separator heights i fig w of
        (Inl e, w') \<Rightarrow> (Inl e, w')
      | (Inr u, w') \<Rightarrow> combine_loop L html_fname js separator heights (Suc i) rest w')"

text \<open>
  \<^verbatim>\<open>
  def combine_plotly_figs_to_html(plotly_figs, html_fname, include_plotlyjs='cdn',
                                  separator=None, auto_open=False, heights=None):
      with open(html_fname, 'w') as f:
          for i, fig in enumerate(plotly_figs):
              ...
      if auto_open:
          import pathlib, webbrowser
          uri = pathlib.Path(html_fname).absolute().as_uri()
          webbrowser.open(uri)
  \<close>
  The file is closed when the \<^verbatim>\<open>with\<close> block is left, also by an exception, so what was
  written until then is in the file. For \<^verbatim>\<open>auto_open\<close> the model records the file name
  in \<open>browser\<close>.
\<close>

definition combine_plotly_figs_to_html ::
  "'fig plotly \<Rightarrow> nat list \<Rightarrow> string \<Rightarrow> include_plotlyjs \<Rightarrow> string option \<Rightarrow> bool
     \<Rightarrow> int list option \<Rightarrow> 'fig world \<Rightarrow> (error + unit) \<times> 'fig world" where
  "combine_plotly_figs_to_html L plotly_figs html_fname include_plotlyjs separator auto_open
       heights w =
     (case open_w html_fname w of
        Inl e \<Rightarrow> (Inl e, w)
      | Inr w0 \<Rightarrow>
          (case combine_loop L html_fname include_plotlyjs separator heights 0 plotly_figs w0 of
             (Inl e, w1) \<Rightarrow> (Inl e, w1)
           | (Inr u, w1) \<Rightarrow>
               (Inr (), if auto_open then w1\<lparr>browser := browser w1 @ [html_fname]\<rparr> else w1)))"

subsection \<open>The loop, seen from the figures and from the file\<close>

text \<open>
  The store as the height steps of the loop leave it, for the figures \<open>plotly_figs\<close> at the
  indices from \<open>i\<close> on: what the loop does to the figures, leaving the file aside.
\<close>

fun heights_applied ::
  "'fig plotly \<Rightarrow> int list option \<Rightarrow> nat \<Rightarrow> nat list \<Rightarrow> (nat \<Rightarrow> 'fig) \<Rightarrow> error + (nat \<Rightarrow> 'fig)" where
  "heights_applied L heights i [] s = Inr s"
| "heights_applied L heights i (fig # rest) s =
     (case override_height L heights i fig s of
        Inl e \<Rightarrow> Inl e
      | Inr s' \<Rightarrow> heights_applied L heights (Suc i) rest s')"

text \<open>
  The figure at index \<open>i\<close> as \<^verbatim>\<open>to_html\<close> receives it: the object as the store holds it after
  the height steps of the indices up to and including \<open>i\<close>.
\<close>

definition serialized_fig ::
  "'fig plotly \<Rightarrow> int list option \<Rightarrow> nat list \<Rightarrow> (nat \<Rightarrow> 'fig) \<Rightarrow> nat \<Rightarrow> error + 'fig" where
  "serialized_fig L heights plotly_figs s i =
     (case heights_applied L heights 0 (take (Suc i) plotly_figs) s of
        Inl e \<Rightarrow> Inl e
      | Inr s' \<Rightarrow> Inr (s' (plotly_figs ! i)))"


text \<open>The characters the separator argument puts into the file: none for \<^verbatim>\<open>None\<close>.\<close>

definition separator_text :: "string option \<Rightarrow> string" where
  "separator_text separator = (case separator of None \<Rightarrow> [] | Some s \<Rightarrow> s)"

text \<open>A document followed by fragments, each fragment after the separator.\<close>

definition joined :: "string \<Rightarrow> string list \<Rightarrow> string" where
  "joined s ps = (case ps of [] \<Rightarrow> [] | p # rest \<Rightarrow> p @ concat (map (\<lambda>q. s @ q) rest))"

text \<open>The number of heights given: none for \<^verbatim>\<open>None\<close>.\<close>

definition heights_count :: "int list option \<Rightarrow> nat" where
  "heights_count heights = (case heights of None \<Rightarrow> 0 | Some hs \<Rightarrow> length hs)"

text \<open>Text mode reads the characters \<open>c\<close> back as they are.\<close>

definition reads_back :: "'fig world \<Rightarrow> string \<Rightarrow> bool" where
  "reads_back w c \<longleftrightarrow> universal_newlines (decode_ignore w c) = c"

subsection \<open>A stand-in for plotly and the notebook's example\<close>

text \<open>
  For evaluating the functions on concrete inputs: a figure reduced to its title and
  its layout height, with an \<^verbatim>\<open>update_layout\<close> that sets the height (plotly refuses a
  height below 10) and a \<^verbatim>\<open>to_html\<close> that shows both.
\<close>

record stub_fig =
  fig_title :: string
  fig_height :: "int option"

fun decimal :: "nat \<Rightarrow> string" where
  "decimal n =
     (if n < 10 then [''0123456789'' ! n]
      else decimal (n div 10) @ [''0123456789'' ! (n mod 10)])"

declare decimal.simps [simp del]

definition stub_update_layout :: "stub_fig \<Rightarrow> int \<Rightarrow> error + stub_fig" where
  "stub_update_layout g h =
     (if h < 10 then Inl (ValueError ''height'') else Inr (g\<lparr>fig_height := Some h\<rparr>))"

definition stub_to_html :: "stub_fig \<Rightarrow> bool \<Rightarrow> include_plotlyjs \<Rightarrow> error + string" where
  "stub_to_html g full_html js =
     (let script = (case js of
                      PyBool False \<Rightarrow> []
                    | PyBool True \<Rightarrow> ''<script>plotly.js</script>''
                    | PyStr s \<Rightarrow> ''<script src=\"'' @ s @ ''\"></script>'');
          body = ''<div'' @ (case fig_height g of
                              None \<Rightarrow> []
                            | Some h \<Rightarrow> '' style=\"height:'' @ decimal (nat h) @ ''px\"'')
                 @ ''>'' @ fig_title g @ ''</div>''
      in Inr (if full_html then ''<html><body>'' @ script @ body @ ''</body></html>''
              else script @ body))"

definition stub_plotly :: "stub_fig plotly" where
  "stub_plotly = \<lparr>update_layout = stub_update_layout, to_html = stub_to_html\<rparr>"

text \<open>
  The ASCII decoder with \<^verbatim>\<open>errors="ignore"\<close>: it drops the characters from \<^verbatim>\<open>0x80\<close> on. On
  ASCII text the UTF-8 decoder does the same.
\<close>

definition ascii_ignore :: "string \<Rightarrow> string" where
  "ascii_ignore cs = filter (\<lambda>c. (of_char c :: nat) < 128) cs"

text \<open>
  The world of the notebook's last cell: the figures \<^verbatim>\<open>fig1\<close>, \<^verbatim>\<open>fig2\<close>, \<^verbatim>\<open>fig3\<close> at the
  addresses 1, 2, 3, and a logo file, here the eight characters of the PNG signature.
\<close>

definition png_signature :: string where
  "png_signature =
     [CHR 0x89, CHR ''P'', CHR ''N'', CHR ''G'', CHR 0x0D, CHR 0x0A, CHR 0x1A, CHR 0x0A]"

definition notebook_world :: "stub_fig world" where
  "notebook_world =
     \<lparr>files = [''yhat.png'' \<mapsto> png_signature],
      unreadable = {},
      unwritable = {''/proc/combined.html''},
      decode_ignore = ascii_ignore,
      figs = (\<lambda>a. \<lparr>fig_title = [], fig_height = None\<rparr>)
               (1 := \<lparr>fig_title = ''Figure1'', fig_height = None\<rparr>,
                2 := \<lparr>fig_title = ''Figure2'', fig_height = None\<rparr>,
                3 := \<lparr>fig_title = ''Figure3'', fig_height = None\<rparr>),
      browser = []\<rparr>"

section \<open>Lemmas\<close>

subsection \<open>Files\<close>

lemma open_r_readable:
  "files w p = Some c \<Longrightarrow> p \<notin> unreadable w \<Longrightarrow> open_r p w = Inr c"
  by (simp add: open_r_def)


lemma open_w_writable:
  "p \<notin> unwritable w \<Longrightarrow> open_w p w = Inr (w\<lparr>files := (files w)(p \<mapsto> [])\<rparr>)"
  by (simp add: open_w_def)


lemma files_fwrite:
  "files (fwrite p s w) q =
     (if q = p then Some ((case files w p of None \<Rightarrow> [] | Some c \<Rightarrow> c) @ s) else files w q)"
  by (simp add: fwrite_def split: option.splits)

lemma fwrite_frame [simp]:
  "figs (fwrite p s w) = figs w"
  "browser (fwrite p s w) = browser w"
  "unreadable (fwrite p s w) = unreadable w"
  "unwritable (fwrite p s w) = unwritable w"
  "decode_ignore (fwrite p s w) = decode_ignore w"
  by (simp_all add: fwrite_def)

subsection \<open>base64\<close>

lemma b64_char_in_alphabet: "b64_char n \<in> set b64_alphabet"
proof -
  have "n mod 64 < length b64_alphabet"
    by (simp add: b64_alphabet_def)
  then show ?thesis
    unfolding b64_char_def by (rule nth_mem)
qed

lemma b64encode_chars: "set (b64encode bs) \<subseteq> set b64_alphabet \<union> {CHR ''=''}"
  by (induction bs rule: b64encode.induct) (auto simp: Let_def b64_char_in_alphabet)

lemma b64_alphabet_ascii: "\<forall>c \<in> set b64_alphabet \<union> {CHR ''=''}. (of_char c :: nat) < 128"
  by (simp add: b64_alphabet_def)

lemma b64encode_ascii: "c \<in> set (b64encode bs) \<Longrightarrow> (of_char c :: nat) < 128"
  using b64encode_chars b64_alphabet_ascii by blast

lemma length_b64encode: "length (b64encode bs) = 4 * ((length bs + 2) div 3)"
proof (induction bs rule: b64encode.induct)
  case (4 a b c rest)
  then have "length (b64encode rest) = 4 * ((length rest + 2) div 3)"
    by simp
  moreover have "(length (a # b # c # rest) + 2) div 3 = Suc ((length rest + 2) div 3)"
    by simp
  ultimately show ?case
    by (simp add: Let_def)
qed (simp_all add: Let_def)

lemma b64encode_rfc4648:
  "b64encode '''' = ''''"
  "b64encode ''f'' = ''Zg==''"
  "b64encode ''fo'' = ''Zm8=''"
  "b64encode ''foo'' = ''Zm9v''"
  "b64encode ''foob'' = ''Zm9vYg==''"
  "b64encode ''fooba'' = ''Zm9vYmE=''"
  "b64encode ''foobar'' = ''Zm9vYmFy''"
  by (simp_all add: b64_char_def b64_alphabet_def)

lemma convert_logo_readable:
  "files w p = Some c \<Longrightarrow> p \<notin> unreadable w \<Longrightarrow>
     convert_logo p w = Inr (''data:image/png;base64,'' @ b64encode c)"
  by (simp add: convert_logo_def open_r_readable)

subsection \<open>Text mode\<close>

lemma universal_newlines_no_cr:
  "CHR 0x0D \<notin> set cs \<Longrightarrow> universal_newlines cs = cs"
  by (induction cs rule: universal_newlines.induct) auto

lemma ascii_ignore_ascii:
  "\<forall>c \<in> set cs. (of_char c :: nat) < 128 \<Longrightarrow> ascii_ignore cs = cs"
  by (simp add: ascii_ignore_def)

lemma reads_back_clean:
  "decode_ignore w c = c \<Longrightarrow> CHR 0x0D \<notin> set c \<Longrightarrow> reads_back w c"
  by (simp add: reads_back_def universal_newlines_no_cr)

subsection \<open>The header\<close>

lemma html_tail_last: "html_tail = butlast html_tail @ [CHR '' '']"
  by (simp add: html_tail_def)



lemma html_head_img: "\<exists>pre. html_head = pre @ ''<img src=\"''"
  by (simp add: html_head_def)

lemma html_mid_img: "\<exists>post. html_mid = ''\" alt=\"Logo\">'' @ post"
  by (simp add: html_mid_def)



lemma reads_back_ascii:
  assumes "decode_ignore w = ascii_ignore"
    and "list_all (\<lambda>ch. (of_char ch :: nat) < 128 \<and> ch \<noteq> CHR 0x0D) c"
  shows "reads_back w c"
proof (rule reads_back_clean)
  show "decode_ignore w c = c"
    using assms by (simp add: ascii_ignore_ascii list_all_iff)
  show "CHR 0x0D \<notin> set c"
    using assms(2) by (auto simp: list_all_iff)
qed


subsection \<open>add_html_header\<close>

lemma add_html_header_rewrites:
  assumes "files w html_file = Some c" "html_file \<notin> unreadable w" "html_file \<notin> unwritable w"
  shows "add_html_header html_file logo title w =
           (Inr (), w\<lparr>files := (files w)(html_file \<mapsto>
                      html_content logo title @ universal_newlines (decode_ignore w c))\<rparr>)"
  using assms
  by (simp add: add_html_header_def read_text_def open_r_def open_w_def fwrite_def)

subsection \<open>The height step\<close>

lemma override_height_below:
  "heights = Some hs \<Longrightarrow> i < length hs \<Longrightarrow>
     override_height L heights i a s =
       (case update_layout L (s a) (hs ! i) of Inl e \<Rightarrow> Inl e | Inr g \<Rightarrow> Inr (s(a := g)))"
  by (auto simp: override_height_def)

lemma override_height_above:
  "heights_count heights \<le> i \<Longrightarrow> override_height L heights i a s = Inr s"
  by (auto simp: override_height_def heights_count_def split: option.splits)

lemma override_height_frame:
  "override_height L heights i a s = Inr s' \<Longrightarrow> b \<noteq> a \<Longrightarrow> s' b = s b"
  by (auto simp: override_height_def split: option.splits if_splits sum.splits)

subsection \<open>Writing one figure\<close>

lemma write_separator_frame [simp]:
  "figs (write_separator f sep w) = figs w"
  "browser (write_separator f sep w) = browser w"
  "unreadable (write_separator f sep w) = unreadable w"
  "unwritable (write_separator f sep w) = unwritable w"
  "decode_ignore (write_separator f sep w) = decode_ignore w"
  by (simp_all add: write_separator_def split: option.splits)

lemma files_write_separator:
  "files w f = Some c \<Longrightarrow> files (write_separator f sep w) f = Some (c @ separator_text sep)"
  by (simp add: write_separator_def separator_text_def files_fwrite split: option.splits)

lemma files_write_separator_other:
  "q \<noteq> f \<Longrightarrow> files (write_separator f sep w) q = files w q"
  by (simp add: write_separator_def files_fwrite split: option.splits)

lemma write_fig_frame [simp]:
  "figs (snd (write_fig L f js sep i a w)) = figs w"
  "browser (snd (write_fig L f js sep i a w)) = browser w"
  "unreadable (snd (write_fig L f js sep i a w)) = unreadable w"
  "unwritable (snd (write_fig L f js sep i a w)) = unwritable w"
  "decode_ignore (snd (write_fig L f js sep i a w)) = decode_ignore w"
  by (simp_all add: write_fig_def Let_def split: sum.splits)

lemma write_fig_ok:
  assumes "write_fig L f js sep i a w = (Inr u, w')" and "files w f = Some c"
  shows "\<exists>p. to_html L (figs w a) (i = 0) (if i = 0 then js else PyBool False) = Inr p \<and>
             files w' f = Some (c @ (if i = 0 then [] else separator_text sep) @ p)"
proof (cases "i = 0")
  case True
  with assms show ?thesis
    by (auto simp: write_fig_def files_fwrite split: sum.splits)
next
  case False
  with assms show ?thesis
    by (auto simp: write_fig_def Let_def files_fwrite files_write_separator split: sum.splits)
qed

subsection \<open>The body of the loop\<close>

lemma combine_body_frame [simp]:
  "browser (snd (combine_body L f js sep hs i a w)) = browser w"
  "unreadable (snd (combine_body L f js sep hs i a w)) = unreadable w"
  "unwritable (snd (combine_body L f js sep hs i a w)) = unwritable w"
  "decode_ignore (snd (combine_body L f js sep hs i a w)) = decode_ignore w"
  by (simp_all add: combine_body_def split: sum.splits)

lemma combine_body_ok:
  assumes "combine_body L f js sep hs i a w = (Inr u, w')" and "files w f = Some c"
  shows "\<exists>s p. override_height L hs i a (figs w) = Inr s \<and> figs w' = s \<and>
               to_html L (s a) (i = 0) (if i = 0 then js else PyBool False) = Inr p \<and>
               files w' f = Some (c @ (if i = 0 then [] else separator_text sep) @ p)"
proof (cases "override_height L hs i a (figs w)")
  case (Inl e)
  with assms show ?thesis
    by (simp add: combine_body_def)
next
  case (Inr s)
  with assms have wf: "write_fig L f js sep i a (w\<lparr>figs := s\<rparr>) = (Inr u, w')"
    by (simp add: combine_body_def)
  have "files (w\<lparr>figs := s\<rparr>) f = Some c"
    using assms by simp
  from write_fig_ok [OF wf this]
  obtain p where "to_html L (s a) (i = 0) (if i = 0 then js else PyBool False) = Inr p"
    and "files w' f = Some (c @ (if i = 0 then [] else separator_text sep) @ p)"
    by auto
  moreover have "figs w' = s"
    using write_fig_frame(1) [of L f js sep i a "w\<lparr>figs := s\<rparr>"] wf by simp
  ultimately show ?thesis
    using Inr by blast
qed

lemma combine_body_figs:
  "override_height L hs i a (figs w) = Inr s \<Longrightarrow> figs (snd (combine_body L f js sep hs i a w)) = s"
  by (simp add: combine_body_def)

lemma combine_body_figs_raise:
  "override_height L hs i a (figs w) = Inl e \<Longrightarrow> combine_body L f js sep hs i a w = (Inl e, w)"
  by (simp add: combine_body_def)

subsection \<open>The loop\<close>

lemma combine_loop_ok:
  assumes "combine_loop L f js sep hs i as w = (Inr u, w')" and "files w f = Some c"
  shows "\<exists>ps. length ps = length as \<and>
           files w' f = Some (c @ (if i = 0 then joined (separator_text sep) ps
                                   else concat (map (\<lambda>q. separator_text sep @ q) ps))) \<and>
           heights_applied L hs i as (figs w) = Inr (figs w') \<and>
           (\<forall>j<length as. \<exists>s. heights_applied L hs i (take (Suc j) as) (figs w) = Inr s \<and>
              to_html L (s (as ! j)) (i + j = 0) (if i + j = 0 then js else PyBool False)
                = Inr (ps ! j))"
  using assms
proof (induction as arbitrary: i w c)
  case Nil
  then show ?case
    by (simp add: joined_def)
next
  case (Cons a as)
  obtain r w1 where body: "combine_body L f js sep hs i a w = (r, w1)"
    by (cases "combine_body L f js sep hs i a w")
  with Cons.prems(1) obtain v where r: "r = Inr v"
    by (cases r) auto
  with body Cons.prems(1) have rest: "combine_loop L f js sep hs (Suc i) as w1 = (Inr u, w')"
    by simp
  from combine_body_ok [OF body [unfolded r] Cons.prems(2)]
  obtain s p where ov: "override_height L hs i a (figs w) = Inr s" and s: "figs w1 = s"
    and p: "to_html L (s a) (i = 0) (if i = 0 then js else PyBool False) = Inr p"
    and c1: "files w1 f = Some (c @ (if i = 0 then [] else separator_text sep) @ p)"
    by blast
  from Cons.IH [OF rest c1]
  obtain ps where len: "length ps = length as"
    and c': "files w' f = Some ((c @ (if i = 0 then [] else separator_text sep) @ p)
               @ concat (map (\<lambda>q. separator_text sep @ q) ps))"
    and st: "heights_applied L hs (Suc i) as (figs w1) = Inr (figs w')"
    and each: "\<forall>j<length as. \<exists>s'. heights_applied L hs (Suc i) (take (Suc j) as) (figs w1) = Inr s' \<and>
              to_html L (s' (as ! j)) (Suc i + j = 0) (if Suc i + j = 0 then js else PyBool False)
                = Inr (ps ! j)"
    by auto
  have "length (p # ps) = length (a # as)"
    using len by simp
  moreover have "files w' f = Some (c @ (if i = 0 then joined (separator_text sep) (p # ps)
                                   else concat (map (\<lambda>q. separator_text sep @ q) (p # ps))))"
    using c' by (simp add: joined_def)
  moreover have "heights_applied L hs i (a # as) (figs w) = Inr (figs w')"
    using ov st s by simp
  moreover have "\<forall>j<length (a # as). \<exists>s'. heights_applied L hs i (take (Suc j) (a # as)) (figs w) = Inr s' \<and>
              to_html L (s' ((a # as) ! j)) (i + j = 0) (if i + j = 0 then js else PyBool False)
                = Inr ((p # ps) ! j)"
  proof (intro allI impI)
    fix j assume j: "j < length (a # as)"
    show "\<exists>s'. heights_applied L hs i (take (Suc j) (a # as)) (figs w) = Inr s' \<and>
              to_html L (s' ((a # as) ! j)) (i + j = 0) (if i + j = 0 then js else PyBool False)
                = Inr ((p # ps) ! j)"
    proof (cases j)
      case 0
      then show ?thesis using ov p by simp
    next
      case (Suc k)
      with j have "k < length as" by simp
      with each obtain s' where "heights_applied L hs (Suc i) (take (Suc k) as) (figs w1) = Inr s'"
        and "to_html L (s' (as ! k)) False (PyBool False) = Inr (ps ! k)"
        by auto
      then show ?thesis
        using Suc ov s by simp
    qed
  qed
  ultimately show ?case
    by blast
qed

subsection \<open>The whole call\<close>

lemma combine_ok:
  assumes "combine_plotly_figs_to_html L as f js sep auto_open hs w = (Inr u, w')"
  shows "\<exists>ps. length ps = length as \<and>
           files w' f = Some (joined (separator_text sep) ps) \<and>
           heights_applied L hs 0 as (figs w) = Inr (figs w') \<and>
           (\<forall>j<length as. \<exists>g. serialized_fig L hs as (figs w) j = Inr g \<and>
              to_html L g (j = 0) (if j = 0 then js else PyBool False) = Inr (ps ! j))"
proof -
  let ?w0 = "w\<lparr>files := (files w)(f \<mapsto> [])\<rparr>"
  from assms have opened: "open_w f w = Inr ?w0"
    by (auto simp: combine_plotly_figs_to_html_def open_w_def split: if_splits)
  obtain r w1 where loop: "combine_loop L f js sep hs 0 as ?w0 = (r, w1)"
    by (cases "combine_loop L f js sep hs 0 as ?w0")
  with assms opened obtain v where r: "r = Inr v"
    by (cases r) (auto simp: combine_plotly_figs_to_html_def)
  from assms opened loop r
  have w': "w' = (if auto_open then w1\<lparr>browser := browser w1 @ [f]\<rparr> else w1)"
    by (simp add: combine_plotly_figs_to_html_def)
  have "files ?w0 f = Some []"
    by simp
  from combine_loop_ok [OF loop [unfolded r] this]
  obtain ps where len: "length ps = length as"
    and c: "files w1 f = Some (joined (separator_text sep) ps)"
    and st: "heights_applied L hs 0 as (figs w) = Inr (figs w1)"
    and each: "\<forall>j<length as. \<exists>s. heights_applied L hs 0 (take (Suc j) as) (figs w) = Inr s \<and>
              to_html L (s (as ! j)) (j = 0) (if j = 0 then js else PyBool False) = Inr (ps ! j)"
    by auto
  have ser: "\<forall>j<length as. \<exists>g. serialized_fig L hs as (figs w) j = Inr g \<and>
              to_html L g (j = 0) (if j = 0 then js else PyBool False) = Inr (ps ! j)"
  proof (intro allI impI)
    fix j assume "j < length as"
    with each obtain s where "heights_applied L hs 0 (take (Suc j) as) (figs w) = Inr s"
      and "to_html L (s (as ! j)) (j = 0) (if j = 0 then js else PyBool False) = Inr (ps ! j)"
      by blast
    then show "\<exists>g. serialized_fig L hs as (figs w) j = Inr g \<and>
              to_html L g (j = 0) (if j = 0 then js else PyBool False) = Inr (ps ! j)"
      by (simp add: serialized_fig_def)
  qed
  have "files w' = files w1" and "figs w' = figs w1"
    using w' by simp_all
  with len c st have "length ps = length as \<and>
           files w' f = Some (joined (separator_text sep) ps) \<and>
           heights_applied L hs 0 as (figs w) = Inr (figs w')"
    by simp
  with ser show ?thesis
    by blast
qed

lemma combine_ok_snd:
  assumes "fst (combine_plotly_figs_to_html L as f js sep auto_open hs w) = Inr ()"
  shows "\<exists>ps. length ps = length as \<and>
           files (snd (combine_plotly_figs_to_html L as f js sep auto_open hs w)) f
             = Some (joined (separator_text sep) ps) \<and>
           heights_applied L hs 0 as (figs w)
             = Inr (figs (snd (combine_plotly_figs_to_html L as f js sep auto_open hs w))) \<and>
           (\<forall>j<length as. \<exists>g. serialized_fig L hs as (figs w) j = Inr g \<and>
              to_html L g (j = 0) (if j = 0 then js else PyBool False) = Inr (ps ! j))"
proof -
  have "combine_plotly_figs_to_html L as f js sep auto_open hs w
          = (Inr (), snd (combine_plotly_figs_to_html L as f js sep auto_open hs w))"
    using assms by (metis prod.collapse)
  then show ?thesis
    by (rule combine_ok)
qed

subsection \<open>The figures\<close>

lemma heights_applied_append:
  "heights_applied L hs i (xs @ ys) s =
     (case heights_applied L hs i xs s of
        Inl e \<Rightarrow> Inl e
      | Inr s' \<Rightarrow> heights_applied L hs (i + length xs) ys s')"
  by (induction xs arbitrary: i s) (auto split: sum.splits)

lemma heights_applied_frame:
  "heights_applied L hs i xs s = Inr s' \<Longrightarrow> b \<notin> set (take (heights_count hs - i) xs) \<Longrightarrow>
     s' b = s b"
proof (induction xs arbitrary: i s)
  case Nil
  then show ?case by simp
next
  case (Cons a xs)
  from Cons.prems(1) obtain s1 where ov: "override_height L hs i a s = Inr s1"
    and rest: "heights_applied L hs (Suc i) xs s1 = Inr s'"
    by (auto split: sum.splits)
  show ?case
  proof (cases "i < heights_count hs")
    case True
    then have "heights_count hs - i = Suc (heights_count hs - Suc i)"
      by simp
    with Cons.prems(2) have "b \<noteq> a" and "b \<notin> set (take (heights_count hs - Suc i) xs)"
      by auto
    then have "s' b = s1 b" and "s1 b = s b"
      using Cons.IH [OF rest] override_height_frame [OF ov] by auto
    then show ?thesis
      by simp
  next
    case False
    then have "s1 = s"
      using ov by (simp add: override_height_above)
    moreover from False have "heights_count hs - Suc i = 0"
      by simp
    ultimately show ?thesis
      using Cons.IH [OF rest] by simp
  qed
qed


subsection \<open>What a call leaves of the figures\<close>

lemma serialized_fig_untouched:
  assumes "serialized_fig L hs as s i = Inr g" and "i < length as"
    and "as ! i \<notin> set (take (heights_count hs) as)"
  shows "g = s (as ! i)"
proof -
  from assms(1) obtain s' where ha: "heights_applied L hs 0 (take (Suc i) as) s = Inr s'"
    and g: "g = s' (as ! i)"
    by (auto simp: serialized_fig_def split: sum.splits)
  have "set (take (heights_count hs - 0) (take (Suc i) as)) \<subseteq> set (take (heights_count hs) as)"
    by (simp add: take_take set_take_subset_set_take)
  with assms(3) have "as ! i \<notin> set (take (heights_count hs - 0) (take (Suc i) as))"
    by blast
  from heights_applied_frame [OF ha this] g show ?thesis
    by simp
qed

lemma combine_body_figs_frame:
  assumes "b \<noteq> a \<or> heights_count hs \<le> i"
  shows "figs (snd (combine_body L f js sep hs i a w)) b = figs w b"
proof (cases "override_height L hs i a (figs w)")
  case (Inl e)
  then show ?thesis
    by (simp add: combine_body_def)
next
  case (Inr s)
  then have "figs (snd (combine_body L f js sep hs i a w)) = s"
    by (rule combine_body_figs)
  moreover have "s b = figs w b"
    using assms override_height_frame [OF Inr] override_height_above [of hs i L a "figs w"] Inr
    by auto
  ultimately show ?thesis
    by simp
qed

lemma combine_loop_figs_frame:
  "b \<notin> set (take (heights_count hs - i) as) \<Longrightarrow>
     figs (snd (combine_loop L f js sep hs i as w)) b = figs w b"
proof (induction as arbitrary: i w)
  case Nil
  then show ?case by simp
next
  case (Cons a as)
  obtain r w1 where body: "combine_body L f js sep hs i a w = (r, w1)"
    by (cases "combine_body L f js sep hs i a w")
  have first: "figs w1 b = figs w b"
  proof (cases "i < heights_count hs")
    case True
    then have "heights_count hs - i = Suc (heights_count hs - Suc i)"
      by simp
    with Cons.prems have "b \<noteq> a"
      by auto
    then show ?thesis
      using combine_body_figs_frame [of b a hs i L f js sep w] body by simp
  next
    case False
    then show ?thesis
      using combine_body_figs_frame [of b a hs i L f js sep w] body by simp
  qed
  show ?case
  proof (cases r)
    case (Inl e)
    with body first show ?thesis by simp
  next
    case (Inr v)
    have "b \<notin> set (take (heights_count hs - Suc i) as)"
    proof (cases "i < heights_count hs")
      case True
      then have "heights_count hs - i = Suc (heights_count hs - Suc i)"
        by simp
      with Cons.prems show ?thesis by auto
    next
      case False
      then show ?thesis by simp
    qed
    from Cons.IH [OF this, of w1] Inr body first show ?thesis
      by simp
  qed
qed

lemma combine_figs_frame:
  assumes "b \<notin> set (take (heights_count hs) as)"
  shows "figs (snd (combine_plotly_figs_to_html L as f js sep auto_open hs w)) b = figs w b"
proof (cases "f \<in> unwritable w")
  case True
  then show ?thesis
    by (simp add: combine_plotly_figs_to_html_def open_w_def)
next
  case False
  let ?w0 = "w\<lparr>files := (files w)(f \<mapsto> [])\<rparr>"
  obtain r w1 where loop: "combine_loop L f js sep hs 0 as ?w0 = (r, w1)"
    by (cases "combine_loop L f js sep hs 0 as ?w0")
  from assms have "b \<notin> set (take (heights_count hs - 0) as)"
    by simp
  from combine_loop_figs_frame [OF this, of L f js sep ?w0] loop
  have "figs w1 b = figs w b"
    by simp
  with False loop show ?thesis
    by (cases r) (simp_all add: combine_plotly_figs_to_html_def open_w_def)
qed

text \<open>On figure objects that are pairwise distinct, each height lands on its own figure.\<close>

lemma heights_applied_distinct:
  assumes "heights_applied L (Some hs) 0 as s = Inr s'"
    and "distinct (take (length hs) as)" and "i < length hs" and "i < length as"
  shows "update_layout L (s (as ! i)) (hs ! i) = Inr (s' (as ! i))"
proof -
  have split: "as = take i as @ as ! i # drop (Suc i) as"
    using assms(4) by (simp add: id_take_nth_drop)
  have len: "length (take i as) = i"
    using assms(4) by simp
  have "heights_applied L (Some hs) 0 (take i as @ as ! i # drop (Suc i) as) s = Inr s'"
    using assms(1) split by metis
  then have "(case heights_applied L (Some hs) 0 (take i as) s of
                Inl e \<Rightarrow> Inl e
              | Inr s1 \<Rightarrow> heights_applied L (Some hs) i (as ! i # drop (Suc i) as) s1) = Inr s'"
    by (simp only: heights_applied_append len add_0)
  then obtain s1 where pre: "heights_applied L (Some hs) 0 (take i as) s = Inr s1"
    and post: "heights_applied L (Some hs) i (as ! i # drop (Suc i) as) s1 = Inr s'"
    by (cases "heights_applied L (Some hs) 0 (take i as) s") simp_all
  from post obtain s2 where ov: "override_height L (Some hs) i (as ! i) s1 = Inr s2"
    and rest: "heights_applied L (Some hs) (Suc i) (drop (Suc i) as) s2 = Inr s'"
    by (auto split: sum.splits)
  have d: "distinct (take (length hs) as)"
    by (rule assms(2))
  have nth_take: "take (length hs) as ! i = as ! i" and i_len: "i < length (take (length hs) as)"
    using assms(3,4) by simp_all
  have before: "as ! i \<notin> set (take i as)"
  proof
    assume "as ! i \<in> set (take i as)"
    then obtain j where j: "j < i" "j < length as" and eq: "as ! j = as ! i"
      by (auto simp: in_set_conv_nth)
    then have e: "take (length hs) as ! j = take (length hs) as ! i"
      and jl: "j < length (take (length hs) as)"
      using assms(3,4) by simp_all
    from nth_eq_iff_index_eq [OF d jl i_len] e have "j = i"
      by blast
    with j(1) show False
      by simp
  qed
  have after: "as ! i \<notin> set (take (length hs - Suc i) (drop (Suc i) as))"
  proof
    assume "as ! i \<in> set (take (length hs - Suc i) (drop (Suc i) as))"
    then obtain j where j: "j < length hs - Suc i" "Suc i + j < length as"
      and eq: "drop (Suc i) as ! j = as ! i"
      by (auto simp: in_set_conv_nth)
    then have e: "take (length hs) as ! (Suc i + j) = take (length hs) as ! i"
      and jl: "Suc i + j < length (take (length hs) as)"
      using assms(3,4) by simp_all
    from nth_eq_iff_index_eq [OF d jl i_len] e have "Suc i + j = i"
      by blast
    then show False
      by simp
  qed
  have "set (take (heights_count (Some hs) - 0) (take i as)) \<subseteq> set (take i as)"
    by (rule set_take_subset)
  with before have "as ! i \<notin> set (take (heights_count (Some hs) - 0) (take i as))"
    by blast
  from heights_applied_frame [OF pre this] have s1: "s1 (as ! i) = s (as ! i)" .
  from after have "as ! i \<notin> set (take (heights_count (Some hs) - Suc i) (drop (Suc i) as))"
    by (simp add: heights_count_def)
  from heights_applied_frame [OF rest this] have s': "s' (as ! i) = s2 (as ! i)" .
  from ov assms(3) obtain g where "update_layout L (s1 (as ! i)) (hs ! i) = Inr g"
    and "s2 = s1(as ! i := g)"
    by (auto simp: override_height_below split: sum.splits)
  with s1 s' show ?thesis
    by simp
qed

subsection \<open>The notebook's example, evaluated\<close>

lemmas combine_eval =
  combine_plotly_figs_to_html_def open_w_def combine_body_def override_height_def write_fig_def
  write_separator_def fwrite_def stub_plotly_def stub_update_layout_def stub_to_html_def
  notebook_world_def decimal.simps

lemma notebook_example:
  "fst (combine_plotly_figs_to_html stub_plotly [1, 2, 3] ''combined.html'' (PyStr ''cdn'')
          (Some ''<hr>'') False (Some [400, 300, 500]) notebook_world) = Inr ()"
  "files (snd (combine_plotly_figs_to_html stub_plotly [1, 2, 3] ''combined.html'' (PyStr ''cdn'')
                 (Some ''<hr>'') False (Some [400, 300, 500]) notebook_world)) ''combined.html''
     = Some (''<html><body><script src=\"cdn\"></script><div style=\"height:400px\">Figure1</div></body></html>''
             @ ''<hr><div style=\"height:300px\">Figure2</div>''
             @ ''<hr><div style=\"height:500px\">Figure3</div>'')"
  by (simp_all add: combine_eval)


lemma one_height:
  "figs (snd (combine_plotly_figs_to_html stub_plotly [1] ''combined.html'' (PyStr ''cdn'')
                 None False (Some [400]) notebook_world)) 1
     = \<lparr>fig_title = ''Figure1'', fig_height = Some 400\<rparr>"
  by (simp add: combine_eval)

subsection \<open>When a call raises\<close>



lemma combine_loop_append:
  "combine_loop L f js sep hs i (xs @ ys) w =
     (case combine_loop L f js sep hs i xs w of
        (Inl e, w') \<Rightarrow> (Inl e, w')
      | (Inr u, w') \<Rightarrow> combine_loop L f js sep hs (i + length xs) ys w')"
proof (induction xs arbitrary: i w)
  case Nil
  then show ?case by simp
next
  case (Cons a xs)
  obtain r w1 where body: "combine_body L f js sep hs i a w = (r, w1)"
    by (cases "combine_body L f js sep hs i a w")
  show ?case
  proof (cases r)
    case (Inl e)
    with body show ?thesis by simp
  next
    case (Inr v)
    with body Cons.IH [of "Suc i" w1] show ?thesis
      by (simp split: prod.splits sum.splits)
  qed
qed





subsection \<open>Two runs\<close>






section \<open>The claims of the specification\<close>

subsection \<open>Claims about \<^verbatim>\<open>combine_plotly_figs_to_html\<close>\<close>

text \<open>
  Claim C1. For every non-empty list of figures and every non-empty separator string
  \<open>s\<close>, a call of \<open>combine_plotly_figs_to_html\<close> that returns leaves in the output file
  exactly: the first figure's \<^verbatim>\<open>to_html\<close> as a complete document, with the inclusion mode
  asked for; then, for each of the remaining figures in order, \<open>s\<close> followed by that
  figure's \<^verbatim>\<open>to_html\<close> with \<^verbatim>\<open>full_html=False\<close> and \<^verbatim>\<open>include_plotlyjs=False\<close>. So \<open>s\<close> stands
  between consecutive figures only, not before the first and not after the last. Each
  figure is serialized as \<open>serialized_fig\<close> gives it, which for a figure object at no index
  below the number of heights is the figure as the caller passed it.
\<close>

theorem combine_document_then_fragments:
  assumes "fst (combine_plotly_figs_to_html L plotly_figs html_fname js (Some s) auto_open heights w)
             = Inr ()"
    and "plotly_figs \<noteq> []" and "s \<noteq> []"
  shows "\<exists>doc frags.
           length frags = length plotly_figs - 1 \<and>
           (\<exists>g. serialized_fig L heights plotly_figs (figs w) 0 = Inr g \<and>
                to_html L g True js = Inr doc) \<and>
           (\<forall>i<length frags. \<exists>g.
              serialized_fig L heights plotly_figs (figs w) (Suc i) = Inr g \<and>
              to_html L g False (PyBool False) = Inr (frags ! i)) \<and>
           files (snd (combine_plotly_figs_to_html L plotly_figs html_fname js (Some s) auto_open
                         heights w)) html_fname
             = Some (doc @ concat (map (\<lambda>frag. s @ frag) frags)) \<and>
           (\<forall>i<length plotly_figs.
              plotly_figs ! i \<notin> set (take (heights_count heights) plotly_figs) \<longrightarrow>
              serialized_fig L heights plotly_figs (figs w) i = Inr (figs w (plotly_figs ! i)))"
proof -
  let ?run = "combine_plotly_figs_to_html L plotly_figs html_fname js (Some s) auto_open heights w"
  from combine_ok_snd [OF assms(1)]
  obtain ps where len: "length ps = length plotly_figs"
    and content: "files (snd ?run) html_fname = Some (joined (separator_text (Some s)) ps)"
    and each: "\<forall>j<length plotly_figs. \<exists>g. serialized_fig L heights plotly_figs (figs w) j = Inr g \<and>
              to_html L g (j = 0) (if j = 0 then js else PyBool False) = Inr (ps ! j)"
    by blast
  from len assms(2) obtain doc frags where ps: "ps = doc # frags"
    by (cases ps) auto
  have 1: "length frags = length plotly_figs - 1"
    using len ps by simp
  have 2: "\<exists>g. serialized_fig L heights plotly_figs (figs w) 0 = Inr g \<and> to_html L g True js = Inr doc"
    using each assms(2) ps by fastforce
  have 3: "\<forall>i<length frags. \<exists>g. serialized_fig L heights plotly_figs (figs w) (Suc i) = Inr g \<and>
              to_html L g False (PyBool False) = Inr (frags ! i)"
  proof (intro allI impI)
    fix i assume "i < length frags"
    then have "Suc i < length plotly_figs"
      using 1 by simp
    with each have "\<exists>g. serialized_fig L heights plotly_figs (figs w) (Suc i) = Inr g \<and>
              to_html L g (Suc i = 0) (if Suc i = 0 then js else PyBool False) = Inr (ps ! Suc i)"
      by blast
    then show "\<exists>g. serialized_fig L heights plotly_figs (figs w) (Suc i) = Inr g \<and>
              to_html L g False (PyBool False) = Inr (frags ! i)"
      using ps by simp
  qed
  have 4: "files (snd ?run) html_fname = Some (doc @ concat (map (\<lambda>frag. s @ frag) frags))"
    using content ps by (simp add: joined_def separator_text_def)
  have 5: "\<forall>i<length plotly_figs.
              plotly_figs ! i \<notin> set (take (heights_count heights) plotly_figs) \<longrightarrow>
              serialized_fig L heights plotly_figs (figs w) i = Inr (figs w (plotly_figs ! i))"
  proof (intro allI impI)
    fix i assume i: "i < length plotly_figs"
      and free: "plotly_figs ! i \<notin> set (take (heights_count heights) plotly_figs)"
    from each i obtain g where g: "serialized_fig L heights plotly_figs (figs w) i = Inr g"
      by blast
    from serialized_fig_untouched [OF g i free] g
    show "serialized_fig L heights plotly_figs (figs w) i = Inr (figs w (plotly_figs ! i))"
      by simp
  qed
  from 1 2 3 4 5 show ?thesis
    by blast
qed

theorem combine_document_then_fragments_witness:
  "fst (combine_plotly_figs_to_html stub_plotly [1, 2, 3] ''combined.html'' (PyStr ''cdn'')
          (Some ''<hr>'') False (Some [400, 300, 500]) notebook_world) = Inr () \<and>
   [1, 2, 3 :: nat] \<noteq> [] \<and> ''<hr>'' \<noteq> [] \<and>
   (\<exists>doc frags.
      length frags = length [1, 2, 3 :: nat] - 1 \<and>
      (\<exists>g. serialized_fig stub_plotly (Some [400, 300, 500]) [1, 2, 3] (figs notebook_world) 0 = Inr g \<and>
           to_html stub_plotly g True (PyStr ''cdn'') = Inr doc) \<and>
      (\<forall>i<length frags. \<exists>g.
         serialized_fig stub_plotly (Some [400, 300, 500]) [1, 2, 3] (figs notebook_world) (Suc i) = Inr g \<and>
         to_html stub_plotly g False (PyBool False) = Inr (frags ! i)) \<and>
      files (snd (combine_plotly_figs_to_html stub_plotly [1, 2, 3] ''combined.html'' (PyStr ''cdn'')
                    (Some ''<hr>'') False (Some [400, 300, 500]) notebook_world)) ''combined.html''
        = Some (doc @ concat (map (\<lambda>frag. ''<hr>'' @ frag) frags))) \<and>
   files (snd (combine_plotly_figs_to_html stub_plotly [1, 2, 3] ''combined.html'' (PyStr ''cdn'')
                 (Some ''<hr>'') False (Some [400, 300, 500]) notebook_world)) ''combined.html''
     = Some (''<html><body><script src=\"cdn\"></script><div style=\"height:400px\">Figure1</div></body></html>''
             @ ''<hr><div style=\"height:300px\">Figure2</div>''
             @ ''<hr><div style=\"height:500px\">Figure3</div>'')"
proof -
  have run: "fst (combine_plotly_figs_to_html stub_plotly [1, 2, 3] ''combined.html'' (PyStr ''cdn'')
          (Some ''<hr>'') False (Some [400, 300, 500]) notebook_world) = Inr ()"
    by (rule notebook_example(1))
  have ne: "[1, 2, 3 :: nat] \<noteq> []" and sep: "''<hr>'' \<noteq> []"
    by simp_all
  from combine_document_then_fragments [OF run ne sep] run ne sep notebook_example(2)
  show ?thesis
    by blast
qed

text \<open>
  Claim C4, as the specification states it, fails: \<^verbatim>\<open>fig.update_layout(height=...)\<close> changes
  the caller's figure object, and the change outlasts the call. With one figure and
  \<^verbatim>\<open>heights=[400]\<close> the figure has the layout height 400 after the call and had none
  before.
\<close>

theorem combine_changes_figure_counterexample:
  "figs (snd (combine_plotly_figs_to_html stub_plotly [1] ''combined.html'' (PyStr ''cdn'')
                None False (Some [400]) notebook_world)) 1
     = \<lparr>fig_title = ''Figure1'', fig_height = Some 400\<rparr> \<and>
   figs notebook_world 1 = \<lparr>fig_title = ''Figure1'', fig_height = None\<rparr> \<and>
   figs (snd (combine_plotly_figs_to_html stub_plotly [1] ''combined.html'' (PyStr ''cdn'')
                None False (Some [400]) notebook_world)) 1
     \<noteq> figs notebook_world 1"
proof -
  have "figs notebook_world 1 = \<lparr>fig_title = ''Figure1'', fig_height = None\<rparr>"
    by (simp add: notebook_world_def)
  with one_height show ?thesis
    by simp
qed

text \<open>
  Claim C4, amended. After a call of \<open>combine_plotly_figs_to_html\<close>, whether it returns or
  raises, every figure object that sits at no index below the number of heights is as it
  was before the call: every figure object when \<^verbatim>\<open>heights\<close> is \<^verbatim>\<open>None\<close> or empty. When the
  call returns and the objects at the indices below the number of heights are pairwise
  distinct, the object at such an index \<open>i\<close> is left as \<^verbatim>\<open>update_layout(height=heights[i])\<close>
  made it.
\<close>

theorem combine_figures_frame:
  "(\<forall>a. a \<notin> set (take (heights_count heights) plotly_figs) \<longrightarrow>
        figs (snd (combine_plotly_figs_to_html L plotly_figs html_fname js separator auto_open
                     heights w)) a = figs w a) \<and>
   (\<forall>hs i. heights = Some hs \<and>
        fst (combine_plotly_figs_to_html L plotly_figs html_fname js separator auto_open
               heights w) = Inr () \<and>
        distinct (take (length hs) plotly_figs) \<and> i < length hs \<and> i < length plotly_figs \<longrightarrow>
        update_layout L (figs w (plotly_figs ! i)) (hs ! i)
          = Inr (figs (snd (combine_plotly_figs_to_html L plotly_figs html_fname js separator
                              auto_open heights w)) (plotly_figs ! i)))"
proof (intro conjI allI impI)
  fix a assume "a \<notin> set (take (heights_count heights) plotly_figs)"
  then show "figs (snd (combine_plotly_figs_to_html L plotly_figs html_fname js separator auto_open
                     heights w)) a = figs w a"
    by (rule combine_figs_frame)
next
  let ?run = "combine_plotly_figs_to_html L plotly_figs html_fname js separator auto_open heights w"
  fix hs i
  assume h: "heights = Some hs \<and> fst ?run = Inr () \<and>
        distinct (take (length hs) plotly_figs) \<and> i < length hs \<and> i < length plotly_figs"
  then have "heights_applied L (Some hs) 0 plotly_figs (figs w) = Inr (figs (snd ?run))"
    using combine_ok_snd [of L plotly_figs html_fname js separator auto_open heights w] by auto
  with h show "update_layout L (figs w (plotly_figs ! i)) (hs ! i) = Inr (figs (snd ?run) (plotly_figs ! i))"
    using heights_applied_distinct by blast
qed

theorem combine_figures_frame_witness:
  "2 \<notin> set (take (heights_count (Some [400])) [1, 2 :: nat]) \<and>
   figs (snd (combine_plotly_figs_to_html stub_plotly [1, 2] ''combined.html'' (PyStr ''cdn'')
                (Some ''<hr>'') False (Some [400]) notebook_world)) 2 = figs notebook_world 2 \<and>
   fst (combine_plotly_figs_to_html stub_plotly [1, 2] ''combined.html'' (PyStr ''cdn'')
          (Some ''<hr>'') False (Some [400]) notebook_world) = Inr () \<and>
   distinct (take (length [400 :: int]) [1, 2 :: nat]) \<and>
   update_layout stub_plotly (figs notebook_world ([1, 2] ! 0)) ([400] ! 0)
     = Inr (figs (snd (combine_plotly_figs_to_html stub_plotly [1, 2] ''combined.html''
                         (PyStr ''cdn'') (Some ''<hr>'') False (Some [400]) notebook_world))
              ([1, 2] ! 0))"
proof -
  let ?run = "combine_plotly_figs_to_html stub_plotly [1, 2] ''combined.html'' (PyStr ''cdn'')
                (Some ''<hr>'') False (Some [400]) notebook_world"
  note frame = combine_figures_frame [of "Some [400]" "[1, 2]" stub_plotly "''combined.html''"
      "PyStr ''cdn''" "Some ''<hr>''" False notebook_world]
  have a: "2 \<notin> set (take (heights_count (Some [400])) [1, 2 :: nat])"
    by (simp add: heights_count_def)
  have ok: "fst ?run = Inr ()"
    by (simp add: combine_eval)
  have d: "distinct (take (length [400 :: int]) [1, 2 :: nat])"
    by simp
  from frame a have "figs (snd ?run) 2 = figs notebook_world 2"
    by blast
  moreover from frame ok d
  have "update_layout stub_plotly (figs notebook_world ([1, 2] ! 0)) ([400] ! 0)
     = Inr (figs (snd ?run) ([1, 2] ! 0))"
    by (metis length_Cons list.size(3) zero_less_Suc)
  ultimately show ?thesis
    using a ok d by blast
qed




text \<open>
  Claim C8. For the empty list of figures and a path that can be opened for writing,
  \<open>combine_plotly_figs_to_html\<close> returns without raising and leaves the output file
  empty: nothing is written, no separator either.
\<close>

theorem combine_no_figures:
  assumes "html_fname \<notin> unwritable w"
  shows "fst (combine_plotly_figs_to_html L [] html_fname js separator auto_open heights w) = Inr () \<and>
         files (snd (combine_plotly_figs_to_html L [] html_fname js separator auto_open heights w))
           html_fname = Some []"
  using assms by (simp add: combine_plotly_figs_to_html_def open_w_def)

theorem combine_no_figures_witness:
  "''combined.html'' \<notin> unwritable notebook_world \<and>
   fst (combine_plotly_figs_to_html stub_plotly [] ''combined.html'' (PyStr ''cdn'') (Some ''<hr>'')
          True (Some [400, 300, 500]) notebook_world) = Inr () \<and>
   files (snd (combine_plotly_figs_to_html stub_plotly [] ''combined.html'' (PyStr ''cdn'')
                 (Some ''<hr>'') True (Some [400, 300, 500]) notebook_world)) ''combined.html''
     = Some []"
proof -
  have h: "''combined.html'' \<notin> unwritable notebook_world"
    by (simp add: notebook_world_def)
  from combine_no_figures [OF h] h show ?thesis
    by blast
qed

subsection \<open>Claims about \<^verbatim>\<open>convert_logo\<close>\<close>

text \<open>
  Claim C2. For every readable file, \<open>convert_logo\<close> returns the data URI
  \<^verbatim>\<open>data:image/png;base64,\<close> followed by the base64 encoding of the file's characters; and
  when that string is the logo given to \<open>add_html_header\<close>, the \<^verbatim>\<open>src\<close> of the \<^verbatim>\<open>img\<close> tag in
  the file written is that data URI.
\<close>

theorem convert_logo_base64_payload:
  assumes "files w file_location = Some image_bytes" and "file_location \<notin> unreadable w"
  shows "convert_logo file_location w = Inr (''data:image/png;base64,'' @ b64encode image_bytes) \<and>
         (\<forall>w' html_file title c.
            files (w' :: 'fig world) html_file = Some c \<and> html_file \<notin> unreadable w' \<and>
            html_file \<notin> unwritable w' \<longrightarrow>
            (\<exists>pre post.
               files (snd (add_html_header html_file
                             (''data:image/png;base64,'' @ b64encode image_bytes) title w')) html_file
                 = Some (pre @ ''<img src=\"'' @ ''data:image/png;base64,'' @ b64encode image_bytes
                           @ ''\" alt=\"Logo\">'' @ post)))"
proof (intro conjI allI impI)
  show "convert_logo file_location w = Inr (''data:image/png;base64,'' @ b64encode image_bytes)"
    using assms by (rule convert_logo_readable)
next
  fix w' :: "'fig world" and html_file title c
  let ?logo = "''data:image/png;base64,'' @ b64encode image_bytes"
  assume "files w' html_file = Some c \<and> html_file \<notin> unreadable w' \<and> html_file \<notin> unwritable w'"
  then have "files (snd (add_html_header html_file ?logo title w')) html_file
               = Some (html_content ?logo title @ universal_newlines (decode_ignore w' c))"
    by (simp add: add_html_header_rewrites)
  moreover obtain pre where "html_head = pre @ ''<img src=\"''"
    using html_head_img by blast
  moreover obtain post where "html_mid = ''\" alt=\"Logo\">'' @ post"
    using html_mid_img by blast
  ultimately have "files (snd (add_html_header html_file ?logo title w')) html_file
      = Some (pre @ ''<img src=\"'' @ ?logo @ ''\" alt=\"Logo\">''
                @ (post @ title @ html_tail @ universal_newlines (decode_ignore w' c)))"
    by (simp add: html_content_def)
  then show "\<exists>pre post. files (snd (add_html_header html_file ?logo title w')) html_file
      = Some (pre @ ''<img src=\"'' @ ''data:image/png;base64,'' @ b64encode image_bytes
                           @ ''\" alt=\"Logo\">'' @ post)"
    by (metis append.assoc)
qed

theorem convert_logo_base64_payload_witness:
  "files notebook_world ''yhat.png'' = Some png_signature \<and>
   ''yhat.png'' \<notin> unreadable notebook_world \<and>
   convert_logo ''yhat.png'' notebook_world = Inr ''data:image/png;base64,iVBORw0KGgo='' \<and>
   (\<exists>pre post.
      files (snd (add_html_header ''combined.html'' ''data:image/png;base64,iVBORw0KGgo=''
                    ''Combined Plotly Figures''
                    (notebook_world\<lparr>files := [''combined.html'' \<mapsto> ''<div>Figure1</div>'']\<rparr>)))
        ''combined.html''
        = Some (pre @ ''<img src=\"data:image/png;base64,iVBORw0KGgo=\" alt=\"Logo\">'' @ post))"
proof -
  let ?w' = "notebook_world\<lparr>files := [''combined.html'' \<mapsto> ''<div>Figure1</div>'']\<rparr>"
  have f: "files notebook_world ''yhat.png'' = Some png_signature"
    by (simp add: notebook_world_def)
  have r: "''yhat.png'' \<notin> unreadable notebook_world"
    by (simp add: notebook_world_def)
  have b64: "b64encode png_signature = ''iVBORw0KGgo=''"
    by (simp add: png_signature_def b64_char_def b64_alphabet_def)
  have h: "files ?w' ''combined.html'' = Some ''<div>Figure1</div>'' \<and>
      ''combined.html'' \<notin> unreadable ?w' \<and> ''combined.html'' \<notin> unwritable ?w'"
    by (simp add: notebook_world_def)
  note both = convert_logo_base64_payload [OF f r]
  from both have "convert_logo ''yhat.png'' notebook_world
          = Inr (''data:image/png;base64,'' @ b64encode png_signature)"
    by (rule conjunct1)
  then have logo: "convert_logo ''yhat.png'' notebook_world = Inr ''data:image/png;base64,iVBORw0KGgo=''"
    using b64 by simp
  from both h
  have "\<exists>pre post.
      files (snd (add_html_header ''combined.html'' (''data:image/png;base64,'' @ b64encode png_signature)
                    ''Combined Plotly Figures'' ?w')) ''combined.html''
        = Some (pre @ ''<img src=\"'' @ ''data:image/png;base64,'' @ b64encode png_signature
                  @ ''\" alt=\"Logo\">'' @ post)"
    by blast
  then have "\<exists>pre post.
      files (snd (add_html_header ''combined.html'' ''data:image/png;base64,iVBORw0KGgo=''
                    ''Combined Plotly Figures'' ?w')) ''combined.html''
        = Some (pre @ ''<img src=\"data:image/png;base64,iVBORw0KGgo=\" alt=\"Logo\">'' @ post)"
    using b64 by simp
  with f r logo show ?thesis
    by blast
qed

text \<open>
  Claim C10. For every readable file, whatever its characters are, \<open>convert_logo\<close> returns a
  string that starts with \<^verbatim>\<open>data:image/png;base64,\<close>: the MIME type does not depend on the
  file.
\<close>

theorem convert_logo_png_prefix:
  assumes "files w file_location = Some image_bytes" and "file_location \<notin> unreadable w"
  shows "\<exists>logo_data. convert_logo file_location w = Inr logo_data \<and>
           prefix ''data:image/png;base64,'' logo_data"
  using convert_logo_readable [OF assms] by simp

theorem convert_logo_png_prefix_witness:
  "files (notebook_world\<lparr>files := [''notes.txt'' \<mapsto> ''foobar'']\<rparr>) ''notes.txt'' = Some ''foobar'' \<and>
   ''notes.txt'' \<notin> unreadable (notebook_world\<lparr>files := [''notes.txt'' \<mapsto> ''foobar'']\<rparr>) \<and>
   (\<exists>logo_data.
      convert_logo ''notes.txt'' (notebook_world\<lparr>files := [''notes.txt'' \<mapsto> ''foobar'']\<rparr>)
        = Inr logo_data \<and> prefix ''data:image/png;base64,'' logo_data)"
proof -
  let ?w = "notebook_world\<lparr>files := [''notes.txt'' \<mapsto> ''foobar'']\<rparr>"
  have f: "files ?w ''notes.txt'' = Some ''foobar''"
    by simp
  have r: "''notes.txt'' \<notin> unreadable ?w"
    by (simp add: notebook_world_def)
  from convert_logo_png_prefix [OF f r] f r show ?thesis
    by blast
qed

subsection \<open>Claims about \<^verbatim>\<open>add_html_header\<close>\<close>

text \<open>
  Claim C3, as the specification states it, fails: the file is read in text mode, which
  turns a carriage return into a line feed. On a file holding \<^verbatim>\<open>a\rb\<close> the new content is
  the header followed by \<^verbatim>\<open>a\nb\<close>, and the previous content is no suffix of it.
\<close>

theorem add_html_header_carriage_return_counterexample:
  "files (snd (add_html_header ''combined.html'' ''logo.png'' ''Title''
                 (notebook_world\<lparr>files := [''combined.html'' \<mapsto> [CHR ''a'', CHR 0x0D, CHR ''b'']]\<rparr>)))
     ''combined.html''
     = Some (html_content ''logo.png'' ''Title'' @ [CHR ''a'', CHR 0x0A, CHR ''b'']) \<and>
   html_content ''logo.png'' ''Title'' @ [CHR ''a'', CHR 0x0A, CHR ''b'']
     \<noteq> html_content ''logo.png'' ''Title'' @ [CHR ''a'', CHR 0x0D, CHR ''b''] \<and>
   \<not> suffix [CHR ''a'', CHR 0x0D, CHR ''b'']
       (html_content ''logo.png'' ''Title'' @ [CHR ''a'', CHR 0x0A, CHR ''b''])"
proof -
  let ?w = "notebook_world\<lparr>files := [''combined.html'' \<mapsto> [CHR ''a'', CHR 0x0D, CHR ''b'']]\<rparr>"
  have "files ?w ''combined.html'' = Some [CHR ''a'', CHR 0x0D, CHR ''b'']"
    by simp
  moreover have "''combined.html'' \<notin> unreadable ?w" "''combined.html'' \<notin> unwritable ?w"
    by (simp_all add: notebook_world_def)
  ultimately have "add_html_header ''combined.html'' ''logo.png'' ''Title'' ?w =
      (Inr (), ?w\<lparr>files := (files ?w)(''combined.html'' \<mapsto> html_content ''logo.png'' ''Title''
         @ universal_newlines (decode_ignore ?w [CHR ''a'', CHR 0x0D, CHR ''b'']))\<rparr>)"
    by (rule add_html_header_rewrites)
  moreover have "universal_newlines (decode_ignore ?w [CHR ''a'', CHR 0x0D, CHR ''b''])
      = [CHR ''a'', CHR 0x0A, CHR ''b'']"
    by (simp add: notebook_world_def ascii_ignore_def)
  ultimately have "files (snd (add_html_header ''combined.html'' ''logo.png'' ''Title'' ?w))
      ''combined.html'' = Some (html_content ''logo.png'' ''Title'' @ [CHR ''a'', CHR 0x0A, CHR ''b''])"
    by simp
  moreover have "\<not> suffix [CHR ''a'', CHR 0x0D, CHR ''b'']
       (html_content ''logo.png'' ''Title'' @ [CHR ''a'', CHR 0x0A, CHR ''b''])"
    by (simp add: suffix_to_prefix)
  ultimately show ?thesis
    by simp
qed

text \<open>
  Claim C3, amended. For every existing file that can be read and written, with content
  \<open>c\<close>, every logo string and every title string, \<open>add_html_header\<close> rewrites the file so
  that its new content is the header shell (\<open>html_head\<close> with the inline CSS up to the
  \<^verbatim>\<open>src\<close> of the \<^verbatim>\<open>img\<close> tag, the logo, \<open>html_mid\<close> up to the \<^verbatim>\<open>h1\<close>, the title, \<open>html_tail\<close>)
  immediately followed by \<open>c\<close> as text mode reads it: decoded, with what the decoder
  cannot decode dropped, and the line endings \<^verbatim>\<open>\r\n\<close> and \<^verbatim>\<open>\r\<close> turned into \<^verbatim>\<open>\n\<close>. When
  text mode reads \<open>c\<close> back as it is, as it does when the decoder keeps \<open>c\<close> whole and \<open>c\<close>
  has no carriage return, the new content is the header followed by \<open>c\<close>, which is
  preserved unchanged as a suffix.
\<close>

theorem add_html_header_prepends:
  assumes "files w html_file = Some c"
    and "html_file \<notin> unreadable w" and "html_file \<notin> unwritable w"
  shows "fst (add_html_header html_file logo title w) = Inr () \<and>
         files (snd (add_html_header html_file logo title w)) html_file
           = Some (html_head @ logo @ html_mid @ title @ html_tail
                     @ universal_newlines (decode_ignore w c)) \<and>
         (decode_ignore w c = c \<and> CHR 0x0D \<notin> set c \<longrightarrow> reads_back w c) \<and>
         (reads_back w c \<longrightarrow>
            files (snd (add_html_header html_file logo title w)) html_file
              = Some (html_content logo title @ c) \<and>
            suffix c (html_content logo title @ c))"
  using assms
  by (simp add: add_html_header_rewrites html_content_def reads_back_def
      universal_newlines_no_cr suffix_def)

theorem add_html_header_prepends_witness:
  "files (notebook_world\<lparr>files := [''combined.html'' \<mapsto> ''<div>Figure1</div>'']\<rparr>) ''combined.html''
     = Some ''<div>Figure1</div>'' \<and>
   ''combined.html'' \<notin> unreadable (notebook_world\<lparr>files := [''combined.html'' \<mapsto> ''<div>Figure1</div>'']\<rparr>) \<and>
   ''combined.html'' \<notin> unwritable (notebook_world\<lparr>files := [''combined.html'' \<mapsto> ''<div>Figure1</div>'']\<rparr>) \<and>
   reads_back (notebook_world\<lparr>files := [''combined.html'' \<mapsto> ''<div>Figure1</div>'']\<rparr>)
     ''<div>Figure1</div>'' \<and>
   files (snd (add_html_header ''combined.html'' ''data:image/png;base64,iVBORw0KGgo=''
                 ''Combined Plotly Figures''
                 (notebook_world\<lparr>files := [''combined.html'' \<mapsto> ''<div>Figure1</div>'']\<rparr>)))
     ''combined.html''
     = Some (html_content ''data:image/png;base64,iVBORw0KGgo='' ''Combined Plotly Figures''
               @ ''<div>Figure1</div>'')"
proof -
  let ?w = "notebook_world\<lparr>files := [''combined.html'' \<mapsto> ''<div>Figure1</div>'']\<rparr>"
  have f: "files ?w ''combined.html'' = Some ''<div>Figure1</div>''"
    by simp
  have r: "''combined.html'' \<notin> unreadable ?w" and u: "''combined.html'' \<notin> unwritable ?w"
    by (simp_all add: notebook_world_def)
  have rb: "reads_back ?w ''<div>Figure1</div>''"
    by (rule reads_back_ascii) (simp_all add: notebook_world_def)
  from add_html_header_prepends [OF f r u, of "''data:image/png;base64,iVBORw0KGgo=''"
      "''Combined Plotly Figures''"] rb
  have "files (snd (add_html_header ''combined.html'' ''data:image/png;base64,iVBORw0KGgo=''
                 ''Combined Plotly Figures'' ?w)) ''combined.html''
     = Some (html_content ''data:image/png;base64,iVBORw0KGgo='' ''Combined Plotly Figures''
               @ ''<div>Figure1</div>'')"
    by blast
  with f r u rb show ?thesis
    by blast
qed




subsection \<open>Claims about all three functions\<close>





end
